theory Spec2Isabelle
  imports Main
begin

section \<open>Python values, exceptions and the external collaborators\<close>

text \<open>
  The orchestrator of \<^verbatim>\<open>src/main.py\<close> (class \<^verbatim>\<open>MultiAgentFramework\<close>) handles values
  decoded by \<^verbatim>\<open>json.loads\<close> and texts produced by the chat agents. Decoded values are
  Python objects; a dictionary, whose keys are distinct, is kept as an association list
  read with \<open>map_of\<close>.
  The code never computes with a float; one is kept as the text \<^verbatim>\<open>repr\<close> writes for it.
\<close>

datatype pyval =
    PNone
  | PBool bool
  | PInt int
  | PFloat string
  | PStr string
  | PList "pyval list"
  | PDict "(string \<times> pyval) list"

text \<open>
  Exceptions are values. \<open>Raised\<close> stands for whatever the external libraries raise
  (transport failures of \<^verbatim>\<open>initiate_chat\<close>, \<^verbatim>\<open>JSONDecodeError\<close> of \<^verbatim>\<open>json.loads\<close>).
\<close>

datatype exn = KeyError | IndexError | AttributeError | UnboundLocalError | Raised string

text \<open>
  \<^verbatim>\<open>obj.get(key)\<close>: on a dictionary the value or \<^verbatim>\<open>None\<close>; any other decoded value
  has no attribute \<^verbatim>\<open>get\<close>.
\<close>

fun py_get :: "pyval \<Rightarrow> string \<Rightarrow> exn + pyval" where
  "py_get (PDict d) k = Inr (case map_of d k of None \<Rightarrow> PNone | Some v \<Rightarrow> v)"
| "py_get _ k = Inl AttributeError"

text \<open>The six agents created by \<^verbatim>\<open>_initialize_agents\<close>, named after the attributes.\<close>

datatype agent = Req_agent | Coding_agent | Review_agent | Doc_agent | Test_agent | Deploy_agent

text \<open>A chat message is a dictionary of strings; the code reads its \<^verbatim>\<open>'content'\<close>.\<close>

type_synonym message = "string \<rightharpoonup> string"

text \<open>
  What the code does not define is a parameter: the user proxy of the chat library with
  its hidden state \<open>'w\<close> (\<^verbatim>\<open>initiate_chat\<close> may raise and changes that state,
  \<^verbatim>\<open>chat_messages\<close> reads it), \<^verbatim>\<open>json.loads\<close> (raising is \<open>Inl\<close>), \<^verbatim>\<open>json.dumps\<close>
  with its optional \<^verbatim>\<open>indent\<close>, and \<^verbatim>\<open>datetime.now().isoformat()\<close>.
\<close>

record 'w env =
  initiate_chat :: "agent \<Rightarrow> string \<Rightarrow> nat \<Rightarrow> 'w \<Rightarrow> exn option \<times> 'w"
  chat_messages :: "'w \<Rightarrow> agent \<Rightarrow> message list option"
  loads :: "string \<Rightarrow> exn + pyval"
  dumps :: "pyval \<Rightarrow> nat option \<Rightarrow> string"
  now_isoformat :: "'w \<Rightarrow> string"

text \<open>
  One call of an agent as the log keeps it: the agent, the message sent and what the
  caller got back (the last message's content, or the exception).
\<close>

type_synonym call = "agent \<times> string \<times> (exn + string)"

text \<open>
  The state of a \<^verbatim>\<open>MultiAgentFramework\<close> instance: the mapping \<^verbatim>\<open>self.results\<close>, the
  user proxy, and a ghost log of the agent calls made so far, oldest first.
\<close>

record 'w framework =
  results :: "string \<rightharpoonup> pyval"
  user_proxy :: 'w
  calls :: "call list"

section \<open>Asking an agent\<close>

text \<open>
  \<^verbatim>\<open>messages = self.user_proxy.chat_messages[agent]; messages[-1]['content']\<close>:
  a missing agent or a missing \<^verbatim>\<open>'content'\<close> is a KeyError, an empty history an IndexError.
\<close>

definition last_content :: "message list option \<Rightarrow> exn + string" where
  "last_content ms =
     (case ms of
        None \<Rightarrow> Inl KeyError
      | Some [] \<Rightarrow> Inl IndexError
      | Some (m # rest) \<Rightarrow>
          (case (last (m # rest)) ''content'' of
             None \<Rightarrow> Inl KeyError
           | Some c \<Rightarrow> Inr c))"

text \<open>
  The idiom every stage uses: \<^verbatim>\<open>initiate_chat(agent, message=..., max_turns=n)\<close> followed
  by the read of the last message. The call is appended to the log with its outcome.
\<close>

definition ask :: "'w env \<Rightarrow> agent \<Rightarrow> string \<Rightarrow> nat \<Rightarrow> 'w framework
    \<Rightarrow> (exn + string) \<times> 'w framework" where
  "ask E a message max_turns s =
     (case initiate_chat E a message max_turns (user_proxy s) of
        (Some e, w) \<Rightarrow>
          (Inl e, s\<lparr>user_proxy := w, calls := calls s @ [(a, message, Inl e)]\<rparr>)
      | (None, w) \<Rightarrow>
          (let r = last_content (chat_messages E w a)
           in (r, s\<lparr>user_proxy := w, calls := calls s @ [(a, message, r)]\<rparr>)))"

section \<open>The response parser\<close>

text \<open>
  \<^verbatim>\<open>re.search(r'\{.*\}', text, re.DOTALL)\<close>. With DOTALL the dot matches every
  character. \<open>greedy_close\<close> is \<^verbatim>\<open>.*\}\<close> matched against the rest of the text: the star
  takes everything and gives back until a closing brace ends the match, so the longest
  prefix that ends in a closing brace. \<open>match_here\<close> is the whole pattern at one start
  position, and \<open>re_search\<close> tries the start positions from left to right.
\<close>

definition greedy_close :: "string \<Rightarrow> string option" where
  "greedy_close rest =
     (let r = rev (dropWhile (\<lambda>c. c \<noteq> CHR ''}'') (rev rest))
      in if r = [] then None else Some r)"

fun match_here :: "string \<Rightarrow> string option" where
  "match_here [] = None"
| "match_here (c # rest) =
     (if c = CHR ''{'' then map_option ((#) c) (greedy_close rest) else None)"

fun re_search :: "string \<Rightarrow> string option" where
  "re_search [] = None"
| "re_search (c # cs) =
     (case match_here (c # cs) of
        Some m \<Rightarrow> Some m
      | None \<Rightarrow> re_search cs)"

text \<open>
  The block that \<^verbatim>\<open>_analyze_requirements\<close> and \<^verbatim>\<open>_review_code\<close> both contain (the spec
  calls it \<^verbatim>\<open>extract_structured\<close>): inside \<^verbatim>\<open>try\<close>, search the text and decode the match;
  a bare \<^verbatim>\<open>except\<close> and the no-match branch both give the fallback.
\<close>

definition extract_structured :: "(string \<Rightarrow> exn + pyval) \<Rightarrow> string \<Rightarrow> pyval \<Rightarrow> pyval" where
  "extract_structured json_loads text fallback =
     (case re_search text of
        None \<Rightarrow> fallback
      | Some m \<Rightarrow>
          (case json_loads m of
             Inl e \<Rightarrow> fallback
           | Inr v \<Rightarrow> v))"

section \<open>The stages\<close>

definition nl :: string where
  "nl = [CHR 0x0A]"

definition analyze_message :: "string \<Rightarrow> string" where
  "analyze_message requirement =
     ''Analyze this requirement and provide structured output:'' @ nl @ requirement @ nl @ nl
     @ ''IMPORTANT: Provide ONLY the JSON output, no code blocks or explanations.''"

definition fallback_requirements :: "string \<Rightarrow> pyval" where
  "fallback_requirements requirement =
     PDict [(''title'', PStr ''Software Project''),
            (''description'', PStr requirement),
            (''features'', PList [PStr ''Core functionality'']),
            (''constraints'', PList [PStr ''Python implementation'']),
            (''edge_cases'', PList [])]"

definition analyze_requirements :: "'w env \<Rightarrow> string \<Rightarrow> 'w framework
    \<Rightarrow> (exn + pyval) \<times> 'w framework" where
  "analyze_requirements E requirement s =
     (case ask E Req_agent (analyze_message requirement) 2 s of
        (Inl e, s1) \<Rightarrow> (Inl e, s1)
      | (Inr last_message, s1) \<Rightarrow>
          (Inr (extract_structured (loads E) last_message (fallback_requirements requirement)),
           s1))"

definition generate_message :: "string \<Rightarrow> string" where
  "generate_message req_text =
     ''Generate Python code for these requirements:'' @ nl @ req_text @ nl @ nl
     @ ''IMPORTANT: Provide ONLY the code, no markdown formatting or explanations before/after.''"

definition generate_code :: "'w env \<Rightarrow> pyval \<Rightarrow> 'w framework
    \<Rightarrow> (exn + string) \<times> 'w framework" where
  "generate_code E requirements s =
     ask E Coding_agent (generate_message (dumps E requirements (Some 2))) 1 s"

definition review_message :: "string \<Rightarrow> string" where
  "review_message current_code =
     ''Review this code:'' @ nl @ current_code @ nl @ nl
     @ ''IMPORTANT: Provide ONLY the JSON review, no explanations.''"

definition improve_message :: "string \<Rightarrow> string \<Rightarrow> string" where
  "improve_message review_text current_code =
     ''Improve this code based on review:'' @ nl @ review_text @ nl @ nl
     @ ''Original code:'' @ nl @ current_code @ nl @ nl
     @ ''IMPORTANT: Provide ONLY the improved code.''"

definition fallback_review :: pyval where
  "fallback_review = PDict [(''status'', PStr ''approved''), (''score'', PInt 8)]"

text \<open>The parse of a review text, as the loop body computes \<^verbatim>\<open>review_result\<close>.\<close>

definition verdict :: "'w env \<Rightarrow> string \<Rightarrow> pyval" where
  "verdict E review_text = extract_structured (loads E) review_text fallback_review"

text \<open>
  The \<^verbatim>\<open>while\<close> loop of \<^verbatim>\<open>_review_code\<close> from one evaluation of its condition on. The
  local \<^verbatim>\<open>review_result\<close> is unbound until the body has run once, so it is an option,
  and the \<^verbatim>\<open>return\<close> after the loop raises UnboundLocalError when it still is.
\<close>

function review_loop :: "'w env \<Rightarrow> int \<Rightarrow> string \<Rightarrow> int \<Rightarrow> pyval option \<Rightarrow> 'w framework
    \<Rightarrow> (exn + pyval \<times> string) \<times> 'w framework" where
  "review_loop E max_iterations current_code iteration review_result s =
     (if iteration < max_iterations then
        (case ask E Review_agent (review_message current_code) 1 s of
           (Inl e, s1) \<Rightarrow> (Inl e, s1)
         | (Inr review_text, s1) \<Rightarrow>
             (let parsed = verdict E review_text
              in case py_get parsed ''status'' of
                   Inl e \<Rightarrow> (Inl e, s1)
                 | Inr status \<Rightarrow>
                     if status = PStr ''approved'' then (Inr (parsed, current_code), s1)
                     else if iteration < max_iterations - 1 then
                       (case ask E Coding_agent (improve_message review_text current_code) 1 s1 of
                          (Inl e, s2) \<Rightarrow> (Inl e, s2)
                        | (Inr improved, s2) \<Rightarrow>
                            review_loop E max_iterations improved (iteration + 1) (Some parsed) s2)
                     else
                       review_loop E max_iterations current_code (iteration + 1) (Some parsed) s1))
      else
        (case review_result of
           None \<Rightarrow> (Inl UnboundLocalError, s)
         | Some r \<Rightarrow> (Inr (r, current_code), s)))"
  by pat_completeness auto
termination
  by (relation "measure (\<lambda>(E, max_iterations, current_code, iteration, review_result, s).
        nat (max_iterations - iteration))") auto

declare review_loop.simps [simp del]

definition review_code :: "'w env \<Rightarrow> string \<Rightarrow> pyval \<Rightarrow> int \<Rightarrow> 'w framework
    \<Rightarrow> (exn + pyval \<times> string) \<times> 'w framework" where
  "review_code E code requirements max_iterations s =
     review_loop E max_iterations code 0 None s"

definition documentation_message :: "string \<Rightarrow> string" where
  "documentation_message code =
     ''Create documentation for this code:'' @ nl @ code @ nl @ nl
     @ ''IMPORTANT: Provide documentation in Markdown format.''"

definition generate_documentation :: "'w env \<Rightarrow> string \<Rightarrow> pyval \<Rightarrow> 'w framework
    \<Rightarrow> (exn + string) \<times> 'w framework" where
  "generate_documentation E code requirements s =
     ask E Doc_agent (documentation_message code) 1 s"

definition tests_message :: "string \<Rightarrow> string" where
  "tests_message code =
     ''Generate comprehensive tests for this code:'' @ nl @ code @ nl @ nl
     @ ''IMPORTANT: Provide ONLY the test code.''"

definition generate_tests :: "'w env \<Rightarrow> string \<Rightarrow> pyval \<Rightarrow> 'w framework
    \<Rightarrow> (exn + string) \<times> 'w framework" where
  "generate_tests E code requirements s =
     ask E Test_agent (tests_message code) 1 s"

definition deployment_message :: "string \<Rightarrow> string \<Rightarrow> string" where
  "deployment_message code req_text =
     ''Create deployment configuration for this project:'' @ nl @ ''Code:'' @ nl @ code @ nl
     @ ''Requirements:'' @ nl @ req_text @ nl @ nl
     @ ''IMPORTANT: Provide deployment script and requirements.txt.''"

definition generate_deployment :: "'w env \<Rightarrow> string \<Rightarrow> pyval \<Rightarrow> 'w framework
    \<Rightarrow> (exn + pyval) \<times> 'w framework" where
  "generate_deployment E code requirements s =
     (case ask E Deploy_agent (deployment_message code (dumps E requirements None)) 1 s of
        (Inl e, s1) \<Rightarrow> (Inl e, s1)
      | (Inr script, s1) \<Rightarrow>
          (Inr (PDict [(''script'', PStr script),
                       (''timestamp'', PStr (now_isoformat E (user_proxy s1)))]),
           s1))"

section \<open>The pipeline\<close>

text \<open>\<^verbatim>\<open>self.results[key] = value\<close>.\<close>

definition put :: "string \<Rightarrow> pyval \<Rightarrow> 'w framework \<Rightarrow> 'w framework" where
  "put key v s = s\<lparr>results := (results s)(key \<mapsto> v)\<rparr>"

text \<open>
  \<^verbatim>\<open>process_requirement\<close>: the six steps in order, each result stored before the next
  step starts. The \<^verbatim>\<open>except Exception\<close> clause logs and re-raises, so an exception of a
  step is the exception of the whole call; \<^verbatim>\<open>_review_code\<close> runs with its default
  \<^verbatim>\<open>max_iterations = 3\<close>.
\<close>

definition process_requirement :: "'w env \<Rightarrow> string \<Rightarrow> 'w framework
    \<Rightarrow> (exn + (string \<rightharpoonup> pyval)) \<times> 'w framework" where
  "process_requirement E requirement s =
     (case analyze_requirements E requirement s of
        (Inl e, s1) \<Rightarrow> (Inl e, s1)
      | (Inr req_result, s1) \<Rightarrow>
     (case generate_code E req_result (put ''requirements'' req_result s1) of
        (Inl e, s2) \<Rightarrow> (Inl e, s2)
      | (Inr code_result, s2) \<Rightarrow>
     (case review_code E code_result req_result 3 (put ''code'' (PStr code_result) s2) of
        (Inl e, s3) \<Rightarrow> (Inl e, s3)
      | (Inr (review_result, final_code), s3) \<Rightarrow>
     (case generate_documentation E final_code req_result
             (put ''final_code'' (PStr final_code) (put ''review'' review_result s3)) of
        (Inl e, s4) \<Rightarrow> (Inl e, s4)
      | (Inr doc_result, s4) \<Rightarrow>
     (case generate_tests E final_code req_result (put ''documentation'' (PStr doc_result) s4) of
        (Inl e, s5) \<Rightarrow> (Inl e, s5)
      | (Inr test_result, s5) \<Rightarrow>
     (case generate_deployment E final_code req_result (put ''tests'' (PStr test_result) s5) of
        (Inl e, s6) \<Rightarrow> (Inl e, s6)
      | (Inr deploy_result, s6) \<Rightarrow>
          (Inr (results (put ''deployment'' deploy_result s6)),
           put ''deployment'' deploy_result s6)))))))"

text \<open>The instance as \<^verbatim>\<open>__init__\<close> leaves it: \<^verbatim>\<open>self.results = {}\<close>, nothing called yet.\<close>

definition init :: "'w \<Rightarrow> 'w framework" where
  "init w = \<lparr>results = Map.empty, user_proxy = w, calls = []\<rparr>"

section \<open>Reading the call log\<close>

text \<open>The calls a run added to the log, the calls made to one agent, and the texts returned.\<close>

definition new_calls :: "'w framework \<Rightarrow> 'w framework \<Rightarrow> call list" where
  "new_calls s s' = drop (length (calls s)) (calls s')"

definition calls_to :: "agent \<Rightarrow> call list \<Rightarrow> call list" where
  "calls_to a cs = filter (\<lambda>c. fst c = a) cs"

fun outputs :: "call list \<Rightarrow> string list" where
  "outputs [] = []"
| "outputs ((a, message, Inr t) # cs) = t # outputs cs"
| "outputs ((a, message, Inl e) # cs) = outputs cs"

section \<open>A scripted user proxy\<close>

text \<open>
  A test double in the manner of \<^verbatim>\<open>mock_chat\<close> of \<^verbatim>\<open>tests/test_framework.py\<close>: every agent has
  a queue of replies; a call takes the agent's next reply and leaves the exchange in
  \<^verbatim>\<open>chat_messages\<close>; with the queue empty the call raises. \<open>stub_loads\<close> decodes the
  few texts the examples use and raises on any other.
\<close>

record script_world =
  pending :: "agent \<Rightarrow> string list"
  shown :: "agent \<Rightarrow> message list option"

definition scripted_chat :: "agent \<Rightarrow> string \<Rightarrow> nat \<Rightarrow> script_world
    \<Rightarrow> exn option \<times> script_world" where
  "scripted_chat a message max_turns w =
     (case pending w a of
        [] \<Rightarrow> (Some (Raised ''no reply''), w)
      | reply # rest \<Rightarrow>
          (None, w\<lparr>pending := (pending w)(a := rest),
                   shown := (shown w)(a := Some [[''content'' \<mapsto> message],
                                                 [''content'' \<mapsto> reply]])\<rparr>))"

text \<open>The texts of the examples, in the format of \<^verbatim>\<open>json.dumps\<close>.\<close>

definition approved_text :: string where
  \<open>approved_text = ''{"status": "approved", "score": 9}''\<close>

definition needs_revision_text :: string where
  \<open>needs_revision_text = ''{"status": "needs_revision", "score": 5}''\<close>

definition calculator_text :: string where
  \<open>calculator_text = ''{"title": "Calculator"}''\<close>

definition stub_loads :: "string \<Rightarrow> exn + pyval" where
  "stub_loads t =
     (if t = ''{}'' then Inr (PDict [])
      else if t = approved_text
        then Inr (PDict [(''status'', PStr ''approved''), (''score'', PInt 9)])
      else if t = needs_revision_text
        then Inr (PDict [(''status'', PStr ''needs_revision''), (''score'', PInt 5)])
      else if t = calculator_text
        then Inr (PDict [(''title'', PStr ''Calculator'')])
      else Inl (Raised ''JSONDecodeError''))"

definition script_env :: "script_world env" where
  "script_env =
     \<lparr>initiate_chat = scripted_chat,
      chat_messages = shown,
      loads = stub_loads,
      dumps = (\<lambda>v indent. ''{}''),
      now_isoformat = (\<lambda>w. ''2024-01-01T00:00:00'')\<rparr>"

text \<open>
  A fresh instance whose proxy holds the given queues of replies: of the analyst, the
  developer, the reviewer, the writer, the QA engineer and the DevOps engineer.
\<close>

definition replies :: "string list \<Rightarrow> string list \<Rightarrow> string list \<Rightarrow> string list
    \<Rightarrow> string list \<Rightarrow> string list \<Rightarrow> agent \<Rightarrow> string list" where
  "replies req coding review doc test deploy a =
     (case a of
        Req_agent \<Rightarrow> req
      | Coding_agent \<Rightarrow> coding
      | Review_agent \<Rightarrow> review
      | Doc_agent \<Rightarrow> doc
      | Test_agent \<Rightarrow> test
      | Deploy_agent \<Rightarrow> deploy)"

definition scripted :: "(agent \<Rightarrow> string list) \<Rightarrow> script_world framework" where
  "scripted queues = init \<lparr>pending = queues, shown = (\<lambda>a. None)\<rparr>"

text \<open>
  Runs of the whole pipeline on a fresh instance: every agent answers (the scenario of
  the integration test); every agent answers, the analyst with an empty object and the
  others with an empty text; the analyst raises; the writer raises; the DevOps engineer
  raises.
\<close>

definition calculator_run :: "script_world framework" where
  "calculator_run = scripted (replies [calculator_text] [''def add(a, b): return a + b'']
     [approved_text] [''# Calculator''] [''def test_add(): assert add(1, 2) == 3'']
     [''echo Deploy''])"

definition empty_answers_run :: "script_world framework" where
  "empty_answers_run = scripted (replies [''{}''] [''''] [approved_text] [''''] [''''] [''''])"

definition analyst_fails_run :: "script_world framework" where
  "analyst_fails_run = scripted (replies [] [''def add(a, b): return a + b'']
     [approved_text] [''# Calculator''] [''def test_add(): assert add(1, 2) == 3'']
     [''echo Deploy''])"

definition writer_fails_run :: "script_world framework" where
  "writer_fails_run = scripted (replies [calculator_text] [''def add(a, b): return a + b'']
     [approved_text] [] [''def test_add(): assert add(1, 2) == 3''] [''echo Deploy''])"

definition devops_fails_run :: "script_world framework" where
  "devops_fails_run = scripted (replies [calculator_text] [''def add(a, b): return a + b'']
     [approved_text] [''# Calculator''] [''def test_add(): assert add(1, 2) == 3''] [])"

section \<open>Properties of the parser\<close>

lemma greedy_close_last:
  "CHR ''}'' \<notin> set post \<Longrightarrow>
     greedy_close (mid @ CHR ''}'' # post) = Some (mid @ [CHR ''}''])"
proof -
  assume a: "CHR ''}'' \<notin> set post"
  have "dropWhile (\<lambda>c. c \<noteq> CHR ''}'') (rev post @ CHR ''}'' # rev mid) = CHR ''}'' # rev mid"
    using a dropWhile_append2[of "rev post" "\<lambda>c. c \<noteq> CHR ''}''" "CHR ''}'' # rev mid"]
    by auto
  then show ?thesis by (simp add: greedy_close_def)
qed

lemma greedy_close_Some:
  assumes "greedy_close rest = Some r"
  shows "\<exists>mid post. rest = mid @ CHR ''}'' # post \<and> r = mid @ [CHR ''}'']
           \<and> CHR ''}'' \<notin> set post"
proof -
  let ?P = "\<lambda>c. c \<noteq> CHR ''}''"
  let ?d = "dropWhile ?P (rev rest)"
  from assms have r: "r = rev ?d" and ne: "?d \<noteq> []"
    by (auto simp: greedy_close_def Let_def split: if_splits)
  from ne have "hd ?d = CHR ''}''"
    using hd_dropWhile[of ?P "rev rest"] by simp
  with ne obtain before where d: "?d = CHR ''}'' # before"
    by (cases ?d) auto
  have "rev rest = takeWhile ?P (rev rest) @ ?d" by simp
  then have "rest = rev ?d @ rev (takeWhile ?P (rev rest))"
    by (metis rev_append rev_rev_ident)
  then have "rest = rev before @ CHR ''}'' # rev (takeWhile ?P (rev rest))"
    using d by simp
  moreover have "r = rev before @ [CHR ''}'']"
    using r d by simp
  moreover have "CHR ''}'' \<notin> set (rev (takeWhile ?P (rev rest)))"
    using set_takeWhileD[of "CHR ''}''" ?P "rev rest"] by auto
  ultimately show ?thesis by blast
qed

lemma re_search_first:
  "CHR ''{'' \<notin> set pre \<Longrightarrow> greedy_close rest = Some r \<Longrightarrow>
     re_search (pre @ CHR ''{'' # rest) = Some (CHR ''{'' # r)"
  by (induction pre) auto

lemma re_search_Some:
  "re_search t = Some m \<Longrightarrow>
     \<exists>pre mid post. t = pre @ CHR ''{'' # mid @ CHR ''}'' # post
       \<and> m = CHR ''{'' # mid @ [CHR ''}'']
       \<and> CHR ''{'' \<notin> set pre \<and> CHR ''}'' \<notin> set post"
proof (induction t)
  case Nil
  then show ?case by simp
next
  case (Cons c cs)
  show ?case
  proof (cases "match_here (c # cs)")
    case (Some m')
    then have c: "c = CHR ''{''" and "\<exists>r. greedy_close cs = Some r \<and> m' = c # r"
      by (auto split: if_splits)
    then obtain r where r: "greedy_close cs = Some r" "m' = c # r" by blast
    from greedy_close_Some[OF r(1)] obtain mid post where
      "cs = mid @ CHR ''}'' # post" "r = mid @ [CHR ''}'']" "CHR ''}'' \<notin> set post"
      by blast
    moreover have "m = m'" using Cons.prems Some by simp
    ultimately have "c # cs = [] @ CHR ''{'' # mid @ CHR ''}'' # post
        \<and> m = CHR ''{'' # mid @ [CHR ''}'']
        \<and> CHR ''{'' \<notin> set [] \<and> CHR ''}'' \<notin> set post"
      using c r by simp
    then show ?thesis by blast
  next
    case None
    then have "re_search cs = Some m" using Cons.prems by simp
    from Cons.IH[OF this] obtain pre mid post where p:
      "cs = pre @ CHR ''{'' # mid @ CHR ''}'' # post" "m = CHR ''{'' # mid @ [CHR ''}'']"
      "CHR ''{'' \<notin> set pre" "CHR ''}'' \<notin> set post"
      by blast
    have "c \<noteq> CHR ''{''"
    proof
      assume c: "c = CHR ''{''"
      have "greedy_close cs = Some ((pre @ CHR ''{'' # mid) @ [CHR ''}''])"
        using greedy_close_last[OF p(4), of "pre @ CHR ''{'' # mid"] p(1) by simp
      then show False using None c by simp
    qed
    then have "c # cs = (c # pre) @ CHR ''{'' # mid @ CHR ''}'' # post
        \<and> m = CHR ''{'' # mid @ [CHR ''}'']
        \<and> CHR ''{'' \<notin> set (c # pre) \<and> CHR ''}'' \<notin> set post"
      using p by simp
    then show ?thesis by blast
  qed
qed

lemma re_search_None:
  "re_search t = None \<Longrightarrow> t \<noteq> pre @ CHR ''{'' # mid @ CHR ''}'' # post"
proof (induction pre arbitrary: t)
  case Nil
  show ?case
  proof
    assume t: "t = [] @ CHR ''{'' # mid @ CHR ''}'' # post"
    have "\<exists>r. greedy_close (mid @ CHR ''}'' # post) = Some r"
      by (simp add: greedy_close_def Let_def)
    then show False using Nil t by auto
  qed
next
  case (Cons c pre)
  show ?case
  proof
    assume t: "t = (c # pre) @ CHR ''{'' # mid @ CHR ''}'' # post"
    then have "re_search (pre @ CHR ''{'' # mid @ CHR ''}'' # post) = None"
      using Cons.prems by (auto split: option.splits)
    from Cons.IH[OF this] show False by simp
  qed
qed

text \<open>
  C2. For every text and fallback: when the text splits at its first opening brace
  and its last closing brace, the closing one after the opening one, the parser decodes
  the substring from the one to the other, whatever braces lie between, returns the
  decoded value as it is, and returns the fallback when the decoder raises; when the
  text does not split so, it returns the fallback. The result is always a value, never
  an exception.
\<close>

theorem extract_structured_first_to_last_brace:
  "(text = pre @ CHR ''{'' # mid @ CHR ''}'' # post
      \<and> CHR ''{'' \<notin> set pre \<and> CHR ''}'' \<notin> set post
    \<longrightarrow> extract_structured json_loads text fallback =
          (case json_loads (CHR ''{'' # mid @ [CHR ''}'']) of
             Inl e \<Rightarrow> fallback
           | Inr v \<Rightarrow> v))
   \<and> ((\<forall>p m q. \<not> (text = p @ CHR ''{'' # m @ CHR ''}'' # q
                   \<and> CHR ''{'' \<notin> set p \<and> CHR ''}'' \<notin> set q))
    \<longrightarrow> extract_structured json_loads text fallback = fallback)"
proof (intro conjI impI)
  assume "text = pre @ CHR ''{'' # mid @ CHR ''}'' # post
      \<and> CHR ''{'' \<notin> set pre \<and> CHR ''}'' \<notin> set post"
  then have "re_search text = Some (CHR ''{'' # mid @ [CHR ''}''])"
    using re_search_first[OF _ greedy_close_last, of pre post mid] by simp
  then show "extract_structured json_loads text fallback =
      (case json_loads (CHR ''{'' # mid @ [CHR ''}'']) of Inl e \<Rightarrow> fallback | Inr v \<Rightarrow> v)"
    by (simp add: extract_structured_def)
next
  assume none: "\<forall>p m q. \<not> (text = p @ CHR ''{'' # m @ CHR ''}'' # q
      \<and> CHR ''{'' \<notin> set p \<and> CHR ''}'' \<notin> set q)"
  have "re_search text = None"
  proof (cases "re_search text")
    case None
    then show ?thesis .
  next
    case (Some m)
    from re_search_Some[OF this] none show ?thesis by blast
  qed
  then show "extract_structured json_loads text fallback = fallback"
    by (simp add: extract_structured_def)
qed

text \<open>
  The parser on three texts: an object between stray braces and prose is decoded from
  the first opening to the last closing brace; an undecodable span and a text with no
  closing brace give the fallback.
\<close>

theorem extract_structured_first_to_last_brace_witness:
  "extract_structured stub_loads (''} see '' @ approved_text @ '' {'') PNone
     = PDict [(''status'', PStr ''approved''), (''score'', PInt 9)]
   \<and> extract_structured stub_loads ''{a} and {b}'' PNone = PNone
   \<and> extract_structured stub_loads ''{incomplete json'' fallback_review = fallback_review"
proof -
  have 1: "''} see '' @ approved_text @ '' {''
      = ''} see '' @ CHR ''{'' # butlast (tl approved_text) @ CHR ''}'' # '' {''
    \<and> CHR ''{'' \<notin> set ''} see '' \<and> CHR ''}'' \<notin> set '' {''"
    by (simp add: approved_text_def)
  have 2: "''{a} and {b}'' = [] @ CHR ''{'' # ''a} and {b'' @ CHR ''}'' # []
    \<and> CHR ''{'' \<notin> set [] \<and> CHR ''}'' \<notin> set []"
    by simp
  have 3: "\<forall>p m q. \<not> (''{incomplete json'' = p @ CHR ''{'' # m @ CHR ''}'' # q
      \<and> CHR ''{'' \<notin> set p \<and> CHR ''}'' \<notin> set q)"
  proof -
    have "re_search ''{incomplete json'' = None"
      by (simp add: greedy_close_def)
    from re_search_None [OF this] show ?thesis by blast
  qed
  note span = extract_structured_first_to_last_brace [THEN conjunct1, THEN mp]
  note none = extract_structured_first_to_last_brace [THEN conjunct2, THEN mp]
  have a: "extract_structured stub_loads (''} see '' @ approved_text @ '' {'') PNone
      = PDict [(''status'', PStr ''approved''), (''score'', PInt 9)]"
    unfolding span [OF 1] by (simp add: stub_loads_def approved_text_def)
  have b: "extract_structured stub_loads ''{a} and {b}'' PNone = PNone"
    unfolding span [OF 2]
    by (simp add: stub_loads_def approved_text_def needs_revision_text_def calculator_text_def)
  have c: "extract_structured stub_loads ''{incomplete json'' fallback_review = fallback_review"
    by (rule none [OF 3])
  from a b c show ?thesis by simp
qed

section \<open>Properties of the revision loop\<close>

text \<open>A call adds one entry to the log and leaves the result mapping alone.\<close>

lemma ask_state:
  "ask E a msg t s = (r, s1) \<Longrightarrow> calls s1 = calls s @ [(a, msg, r)] \<and> results s1 = results s"
  by (auto simp: ask_def Let_def split: prod.splits option.splits)

lemma review_loop_done:
  "\<not> i < m \<Longrightarrow> review_loop E m c i rr s =
     (case rr of None \<Rightarrow> (Inl UnboundLocalError, s) | Some r \<Rightarrow> (Inr (r, c), s))"
  by (simp add: review_loop.simps)

lemma review_loop_failed:
  "i < m \<Longrightarrow> ask E Review_agent (review_message c) 1 s = (Inl e, s1) \<Longrightarrow>
     review_loop E m c i rr s = (Inl e, s1)"
  by (subst review_loop.simps) simp

lemma review_loop_no_get:
  "i < m \<Longrightarrow> ask E Review_agent (review_message c) 1 s = (Inr t, s1) \<Longrightarrow>
   py_get (verdict E t) ''status'' = Inl e \<Longrightarrow>
     review_loop E m c i rr s = (Inl e, s1)"
  by (subst review_loop.simps) (simp add: Let_def)

lemma review_loop_approved:
  "i < m \<Longrightarrow> ask E Review_agent (review_message c) 1 s = (Inr t, s1) \<Longrightarrow>
   py_get (verdict E t) ''status'' = Inr (PStr ''approved'') \<Longrightarrow>
     review_loop E m c i rr s = (Inr (verdict E t, c), s1)"
  by (subst review_loop.simps) (simp add: Let_def)

lemma review_loop_revise:
  "i < m - 1 \<Longrightarrow> ask E Review_agent (review_message c) 1 s = (Inr t, s1) \<Longrightarrow>
   py_get (verdict E t) ''status'' = Inr v \<Longrightarrow> v \<noteq> PStr ''approved'' \<Longrightarrow>
     review_loop E m c i rr s =
       (case ask E Coding_agent (improve_message t c) 1 s1 of
          (Inl e, s2) \<Rightarrow> (Inl e, s2)
        | (Inr improved, s2) \<Rightarrow> review_loop E m improved (i + 1) (Some (verdict E t)) s2)"
  by (subst review_loop.simps) (simp add: Let_def)

lemma review_loop_exhausted:
  "i = m - 1 \<Longrightarrow> ask E Review_agent (review_message c) 1 s = (Inr t, s1) \<Longrightarrow>
   py_get (verdict E t) ''status'' = Inr v \<Longrightarrow> v \<noteq> PStr ''approved'' \<Longrightarrow>
     review_loop E m c i rr s = (Inr (verdict E t, c), s1)"
  by (subst review_loop.simps) (simp add: Let_def review_loop_done)

lemma review_loop_bounds:
  "review_loop E m c i rr s = (r, s') \<Longrightarrow>
     \<exists>new. calls s' = calls s @ new \<and> results s' = results s
       \<and> (\<forall>x \<in> set new. fst x = Review_agent \<or> fst x = Coding_agent)
       \<and> length (calls_to Review_agent new) \<le> nat (m - i)
       \<and> length (calls_to Coding_agent new) \<le> nat (m - i - 1)"
proof (induction "nat (m - i)" arbitrary: i c rr s)
  case 0
  then have "\<not> i < m" by simp
  then have "s' = s" using "0.prems" by (auto simp: review_loop_done split: option.splits)
  then show ?case by (simp add: calls_to_def)
next
  case (Suc k)
  then have lt: "i < m" by simp
  obtain r1 s1 where a1: "ask E Review_agent (review_message c) 1 s = (r1, s1)" by fastforce
  note st1 = ask_state[OF a1]
  let ?e1 = "(Review_agent, review_message c, r1)"
  have one: "s' = s1 \<Longrightarrow> ?case"
    using st1 lt by (intro exI[of _ "[?e1]"]) (simp add: calls_to_def)
  show ?case
  proof (cases r1)
    case (Inl e)
    have "s' = s1" using review_loop_failed[OF lt a1[unfolded Inl], where rr=rr] Suc.prems by simp
    then show ?thesis by (rule one)
  next
    case (Inr t)
    note a1' = a1[unfolded Inr]
    show ?thesis
    proof (cases "py_get (verdict E t) ''status''")
      case (Inl e)
      have "s' = s1" using review_loop_no_get[OF lt a1' Inl, where rr=rr] Suc.prems by simp
      then show ?thesis by (rule one)
    next
      case g: (Inr v)
      show ?thesis
      proof (cases "v = PStr ''approved''")
        case True
        have "s' = s1" using review_loop_approved[OF lt a1' g[unfolded True], where rr=rr] Suc.prems by simp
        then show ?thesis by (rule one)
      next
        case False
        show ?thesis
        proof (cases "i < m - 1")
          case ex: False
          then have "i = m - 1" using lt by simp
          then have "s' = s1" using review_loop_exhausted[OF _ a1' g False, where rr=rr and m=m] Suc.prems by simp
          then show ?thesis by (rule one)
        next
          case more: True
          obtain r2 s2 where a2: "ask E Coding_agent (improve_message t c) 1 s1 = (r2, s2)"
            by fastforce
          note st2 = ask_state[OF a2]
          let ?e2 = "(Coding_agent, improve_message t c, r2)"
          note step = review_loop_revise[OF more a1' g False, of rr, unfolded a2]
          show ?thesis
          proof (cases r2)
            case (Inl e)
            then have "s' = s2" using step Suc.prems by simp
            then show ?thesis using st1 st2 more
              by (intro exI[of _ "[?e1, ?e2]"]) (auto simp: calls_to_def)
          next
            case (Inr c2)
            then have rec: "review_loop E m c2 (i + 1) (Some (verdict E t)) s2 = (r, s')"
              using step Suc.prems by simp
            have k: "k = nat (m - (i + 1))" using Suc.hyps(2) by simp
            from Suc.hyps(1)[OF k rec] obtain new where n:
              "calls s' = calls s2 @ new" "results s' = results s2"
              "\<forall>x \<in> set new. fst x = Review_agent \<or> fst x = Coding_agent"
              "length (calls_to Review_agent new) \<le> nat (m - (i + 1))"
              "length (calls_to Coding_agent new) \<le> nat (m - (i + 1) - 1)" by blast
            show ?thesis using n st1 st2 more
              by (intro exI[of _ "?e1 # ?e2 # new"]) (auto simp: calls_to_def)
          qed
        qed
      qed
    qed
  qed
qed

text \<open>The definitions a run of the scripted proxy unfolds.\<close>

lemmas run_defs = review_code_def review_loop.simps ask_def scripted_def init_def script_env_def
  scripted_chat_def replies_def last_content_def verdict_def extract_structured_def stub_loads_def
  greedy_close_def review_message_def improve_message_def nl_def fallback_review_def
  new_calls_def calls_to_def approved_text_def needs_revision_text_def calculator_text_def Let_def

text \<open>
  C1. For every \<open>max_iterations \<ge> 1\<close>, whatever the reviewer and the developer answer
  (the proxy and the decoder are arbitrary), the revision loop returns, having added to
  the log at most \<open>max_iterations\<close> calls of the reviewer and at most
  \<open>max_iterations - 1\<close> calls of the developer. That the loop returns is the termination
  proof of \<open>review_loop\<close>: each iteration shrinks \<open>max_iterations - iteration\<close>.
\<close>

theorem review_code_bounded:
  assumes "1 \<le> max_iterations"
  shows "\<exists>r s'. review_code E code requirements max_iterations s = (r, s')
     \<and> calls s' = calls s @ new_calls s s'
     \<and> int (length (calls_to Review_agent (new_calls s s'))) \<le> max_iterations
     \<and> int (length (calls_to Coding_agent (new_calls s s'))) \<le> max_iterations - 1"
proof -
  obtain r s' where run: "review_loop E max_iterations code 0 None s = (r, s')"
    by fastforce
  from review_loop_bounds[OF run] obtain new where n: "calls s' = calls s @ new"
      "length (calls_to Review_agent new) \<le> nat (max_iterations - 0)"
      "length (calls_to Coding_agent new) \<le> nat (max_iterations - 0 - 1)"
    by blast
  then have "new_calls s s' = new" by (simp add: new_calls_def)
  then show ?thesis using n assms run by (auto simp: review_code_def)
qed

text \<open>A reviewer that rejects twice, with a budget of two.\<close>

theorem review_code_bounded_witness:
  "(1::int) \<le> 2
   \<and> (\<exists>r s'. review_code script_env ''v0'' PNone 2
          (scripted (replies [] [''v1'', ''v2''] [needs_revision_text, needs_revision_text, approved_text] [] [] [])) = (r, s')
     \<and> calls s' = calls (scripted (replies [] [''v1'', ''v2''] [needs_revision_text, needs_revision_text, approved_text] [] [] []))
          @ new_calls (scripted (replies [] [''v1'', ''v2''] [needs_revision_text, needs_revision_text, approved_text] [] [] [])) s'
     \<and> int (length (calls_to Review_agent (new_calls (scripted (replies [] [''v1'', ''v2''] [needs_revision_text, needs_revision_text, approved_text] [] [] [])) s'))) \<le> 2
     \<and> int (length (calls_to Coding_agent (new_calls (scripted (replies [] [''v1'', ''v2''] [needs_revision_text, needs_revision_text, approved_text] [] [] [])) s'))) \<le> 2 - 1)"
proof -
  have h: "(1::int) \<le> 2" by simp
  show ?thesis
    using h review_code_bounded [OF h, of script_env "''v0''" PNone
      "scripted (replies [] [''v1'', ''v2''] [needs_revision_text, needs_revision_text, approved_text] [] [] [])"]
    by blast
qed

text \<open>
  C9. For every \<open>max_iterations \<le> 0\<close> the loop body never runs: no agent is called
  (the state is returned unchanged) and the \<^verbatim>\<open>return\<close> after the loop raises
  UnboundLocalError, \<^verbatim>\<open>review_result\<close> never having been assigned.
\<close>

theorem review_code_nonpositive_budget:
  "max_iterations \<le> 0 \<Longrightarrow>
     review_code E code requirements max_iterations s = (Inl UnboundLocalError, s)"
  by (simp add: review_code_def review_loop_done)

text \<open>Budgets 0 and -1.\<close>

theorem review_code_nonpositive_budget_witness:
  "review_code script_env ''v0'' PNone 0 (scripted (replies [] [''v1''] [approved_text] [] [] []))
     = (Inl UnboundLocalError, scripted (replies [] [''v1''] [approved_text] [] [] []))
   \<and> review_code script_env ''v0'' PNone (- 1) (scripted (replies [] [''v1''] [approved_text] [] [] []))
     = (Inl UnboundLocalError, scripted (replies [] [''v1''] [approved_text] [] [] []))"
  using review_code_nonpositive_budget [of 0 script_env "''v0''" PNone]
    review_code_nonpositive_budget [of "- 1" script_env "''v0''" PNone]
  by simp

text \<open>
  C4. When the reviewer's first answer parses to a verdict whose status is
  \<^verbatim>\<open>approved\<close> (and a first review takes place, \<open>max_iterations \<ge> 1\<close>), the loop returns
  that verdict with the input code unchanged, and the only call it made is that review:
  the developer is not called.
\<close>

theorem review_code_first_approved:
  assumes "1 \<le> max_iterations"
    and "ask E Review_agent (review_message code) 1 s = (Inr review_text, s1)"
    and "py_get (verdict E review_text) ''status'' = Inr (PStr ''approved'')"
  shows "review_code E code requirements max_iterations s
           = (Inr (verdict E review_text, code), s1)
     \<and> new_calls s s1 = [(Review_agent, review_message code, Inr review_text)]"
proof -
  have "0 < max_iterations" using assms(1) by simp
  from review_loop_approved[OF this assms(2,3)] ask_state[OF assms(2)]
  show ?thesis by (simp add: review_code_def new_calls_def)
qed

text \<open>The scenario of the test suite: the reviewer approves at once.\<close>

theorem review_code_first_approved_witness:
  "fst (review_code script_env ''def add(a, b): return a + b'' PNone 3
          (scripted (replies [] [''v1''] [approved_text] [] [] [])))
     = Inr (PDict [(''status'', PStr ''approved''), (''score'', PInt 9)],
            ''def add(a, b): return a + b'')
   \<and> calls_to Coding_agent (calls (snd (review_code script_env ''def add(a, b): return a + b'' PNone 3
          (scripted (replies [] [''v1''] [approved_text] [] [] []))))) = []"
proof -
  let ?s = "scripted (replies [] [''v1''] [approved_text] [] [] [])"
  let ?c = "''def add(a, b): return a + b''"
  let ?s1 = "snd (ask script_env Review_agent (review_message ?c) 1 ?s)"
  have h: "(1::int) \<le> 3" by simp
  have a: "ask script_env Review_agent (review_message ?c) 1 ?s = (Inr approved_text, ?s1)"
    by (simp add: run_defs)
  have g: "py_get (verdict script_env approved_text) ''status'' = Inr (PStr ''approved'')"
    by (simp add: run_defs)
  have v: "verdict script_env approved_text
      = PDict [(''status'', PStr ''approved''), (''score'', PInt 9)]"
    by (simp add: run_defs)
  have l: "calls_to Coding_agent (calls ?s1) = []"
    by (simp add: run_defs)
  from review_code_first_approved [OF h a g, of PNone] v l show ?thesis by simp
qed

text \<open>
  C5. At any iteration of the loop, when the reviewer's answer has no decodable span
  (no brace span at all, or a span the decoder rejects), the loop takes the fallback
  verdict \<^verbatim>\<open>{status: approved, score: 8}\<close> and returns it at once with the current code;
  the review is the only call made, so no revision follows.
\<close>

theorem review_loop_malformed_verdict:
  assumes "iteration < max_iterations"
    and "ask E Review_agent (review_message current_code) 1 s = (Inr review_text, s1)"
    and "re_search review_text = None
         \<or> (\<exists>m e. re_search review_text = Some m \<and> loads E m = Inl e)"
  shows "review_loop E max_iterations current_code iteration review_result s
           = (Inr (PDict [(''status'', PStr ''approved''), (''score'', PInt 8)], current_code), s1)
     \<and> new_calls s s1 = [(Review_agent, review_message current_code, Inr review_text)]"
proof -
  from assms(3) have v: "verdict E review_text = fallback_review"
    by (auto simp: verdict_def extract_structured_def)
  then have "py_get (verdict E review_text) ''status'' = Inr (PStr ''approved'')"
    by (simp add: fallback_review_def)
  from review_loop_approved[OF assms(1,2) this] ask_state[OF assms(2)] v
  show ?thesis by (simp add: new_calls_def fallback_review_def)
qed

text \<open>The answers \<^verbatim>\<open>{incomplete json\<close> (no span) and \<^verbatim>\<open>{not json}\<close> (undecodable span).\<close>

theorem review_loop_malformed_verdict_witness:
  "review_code script_env ''v0'' PNone 3 (scripted (replies [] [''v1''] [''{incomplete json''] [] [] []))
     = (Inr (PDict [(''status'', PStr ''approved''), (''score'', PInt 8)], ''v0''),
        snd (ask script_env Review_agent (review_message ''v0'') 1
               (scripted (replies [] [''v1''] [''{incomplete json''] [] [] []))))
   \<and> review_code script_env ''v0'' PNone 3 (scripted (replies [] [''v1''] [''{not json}''] [] [] []))
     = (Inr (PDict [(''status'', PStr ''approved''), (''score'', PInt 8)], ''v0''),
        snd (ask script_env Review_agent (review_message ''v0'') 1
               (scripted (replies [] [''v1''] [''{not json}''] [] [] []))))"
proof -
  let ?s = "scripted (replies [] [''v1''] [''{incomplete json''] [] [] [])"
  let ?t = "scripted (replies [] [''v1''] [''{not json}''] [] [] [])"
  have h: "(0::int) < 3" by simp
  have a: "ask script_env Review_agent (review_message ''v0'') 1 ?s
      = (Inr ''{incomplete json'', snd (ask script_env Review_agent (review_message ''v0'') 1 ?s))"
    by (simp add: run_defs)
  have b: "ask script_env Review_agent (review_message ''v0'') 1 ?t
      = (Inr ''{not json}'', snd (ask script_env Review_agent (review_message ''v0'') 1 ?t))"
    by (simp add: run_defs)
  have n: "re_search ''{incomplete json'' = None
      \<or> (\<exists>m e. re_search ''{incomplete json'' = Some m \<and> loads script_env m = Inl e)"
    by (simp add: greedy_close_def)
  have u: "re_search ''{not json}'' = None
      \<or> (\<exists>m e. re_search ''{not json}'' = Some m \<and> loads script_env m = Inl e)"
    by (simp add: run_defs)
  from review_loop_malformed_verdict [OF h a n, of None]
    review_loop_malformed_verdict [OF h b u, of None]
  show ?thesis by (simp add: review_code_def)
qed

text \<open>The log of a run only grows.\<close>

lemma review_loop_grows:
  "review_loop E m c i rr s = (r, s') \<Longrightarrow> \<exists>new. calls s' = calls s @ new"
  using review_loop_bounds by blast

lemma review_loop_rejected:
  assumes "review_loop E m c i rr s = (r, s')"
    and "i < m"
    and "calls s' = calls s @ new"
    and "\<forall>x \<in> set new. \<exists>t. snd (snd x) = Inr t
           \<and> (fst x = Review_agent \<longrightarrow>
                 py_get (verdict E t) ''status'' = Inr (PStr ''needs_revision''))"
  shows "length (calls_to Review_agent new) = nat (m - i)
     \<and> length (calls_to Coding_agent new) = nat (m - i - 1)
     \<and> (\<exists>t. last new = (Review_agent,
                          review_message (last (c # outputs (calls_to Coding_agent new))), Inr t)
            \<and> py_get (verdict E t) ''status'' = Inr (PStr ''needs_revision'')
            \<and> r = Inr (verdict E t, last (c # outputs (calls_to Coding_agent new))))"
  using assms
proof (induction "nat (m - i)" arbitrary: i c rr s new)
  case 0
  then show ?case by simp
next
  case (Suc k)
  note lt = \<open>i < m\<close>
  note run = \<open>review_loop E m c i rr s = (r, s')\<close>
  note log = \<open>calls s' = calls s @ new\<close>
  note all = Suc.prems(4)
  obtain r1 s1 where a1: "ask E Review_agent (review_message c) 1 s = (r1, s1)" by fastforce
  note st1 = ask_state[OF a1]
  let ?e1 = "(Review_agent, review_message c, r1)"
  have stop: "new = [?e1]" if "s' = s1"
    using that st1 log by simp
  show ?case
  proof (cases r1)
    case (Inl e)
    have "s' = s1" using review_loop_failed[OF lt a1[unfolded Inl], where rr=rr] run by simp
    from stop[OF this] all Inl show ?thesis by simp
  next
    case (Inr t)
    note a1' = a1[unfolded Inr]
    show ?thesis
    proof (cases "py_get (verdict E t) ''status''")
      case (Inl e)
      have "s' = s1" using review_loop_no_get[OF lt a1' Inl, where rr=rr] run by simp
      from stop[OF this] all Inr Inl show ?thesis by simp
    next
      case g: (Inr v)
      show ?thesis
      proof (cases "v = PStr ''approved''")
        case True
        have "s' = s1"
          using review_loop_approved[OF lt a1' g[unfolded True], where rr=rr] run by simp
        from stop[OF this] all Inr g True show ?thesis by simp
      next
        case False
        show ?thesis
        proof (cases "i < m - 1")
          case ex: False
          then have i: "i = m - 1" using lt by simp
          have res: "r = Inr (verdict E t, c)" "s' = s1"
            using review_loop_exhausted[OF i a1' g False, where rr=rr] run by simp_all
          from stop[OF res(2)] have n: "new = [?e1]" .
          have "py_get (verdict E t) ''status'' = Inr (PStr ''needs_revision'')"
            using all n Inr by simp
          then show ?thesis using n res Inr i by (simp add: calls_to_def)
        next
          case more: True
          obtain r2 s2 where a2: "ask E Coding_agent (improve_message t c) 1 s1 = (r2, s2)"
            by fastforce
          note st2 = ask_state[OF a2]
          let ?e2 = "(Coding_agent, improve_message t c, r2)"
          note step = review_loop_revise[OF more a1' g False, of rr, unfolded a2]
          show ?thesis
          proof (cases r2)
            case (Inl e)
            then have "s' = s2" using step run by simp
            then have "new = [?e1, ?e2]" using st1 st2 log by simp
            then show ?thesis using all Inl by simp
          next
            case c2: (Inr c2)
            then have rec: "review_loop E m c2 (i + 1) (Some (verdict E t)) s2 = (r, s')"
              using step run by simp
            from review_loop_grows[OF rec] obtain new2 where n2: "calls s' = calls s2 @ new2"
              by blast
            then have n: "new = ?e1 # ?e2 # new2" using st1 st2 log by simp
            have k: "k = nat (m - (i + 1))" using Suc.hyps(2) by simp
            have lt2: "i + 1 < m" using more by simp
            have all2: "\<forall>x \<in> set new2. \<exists>t. snd (snd x) = Inr t
                \<and> (fst x = Review_agent \<longrightarrow>
                      py_get (verdict E t) ''status'' = Inr (PStr ''needs_revision''))"
              using all n by simp
            from Suc.hyps(1)[OF k rec lt2 n2 all2] obtain t' where ih:
              "length (calls_to Review_agent new2) = nat (m - (i + 1))"
              "length (calls_to Coding_agent new2) = nat (m - (i + 1) - 1)"
              "last new2 = (Review_agent,
                 review_message (last (c2 # outputs (calls_to Coding_agent new2))), Inr t')"
              "py_get (verdict E t') ''status'' = Inr (PStr ''needs_revision'')"
              "r = Inr (verdict E t', last (c2 # outputs (calls_to Coding_agent new2)))"
              by blast
            have ne: "new2 \<noteq> []" using ih(1) lt2 by (auto simp: calls_to_def)
            have "length (calls_to Review_agent new) = nat (m - i)"
              using n ih(1) lt2 by (auto simp: calls_to_def)
            moreover have "length (calls_to Coding_agent new) = nat (m - i - 1)"
              using n ih(2) lt2 by (auto simp: calls_to_def)
            moreover have "last (c # outputs (calls_to Coding_agent new))
                = last (c2 # outputs (calls_to Coding_agent new2))"
              using n c2 by (simp add: calls_to_def)
            moreover have "last new = last new2" using n ne by simp
            ultimately show ?thesis using ih(3,4,5) by simp
          qed
        qed
      qed
    qed
  qed
qed

text \<open>
  C3. When every call of a run returned a text and every answer of the reviewer parsed
  to status \<^verbatim>\<open>needs_revision\<close>, then for every \<open>max_iterations \<ge> 1\<close> the loop used its
  whole budget (\<open>max_iterations\<close> reviews, \<open>max_iterations - 1\<close> revisions) and returned
  the verdict of the last review, still rejecting, with the code that review was sent:
  the text of the last revision when there was one, the input code otherwise.
\<close>

theorem review_code_always_rejected:
  assumes "1 \<le> max_iterations"
    and "review_code E code requirements max_iterations s = (r, s')"
    and "\<forall>(a, message, out) \<in> set (new_calls s s').
           \<exists>t. out = Inr t
             \<and> (a = Review_agent \<longrightarrow>
                   py_get (verdict E t) ''status'' = Inr (PStr ''needs_revision''))"
  shows "int (length (calls_to Review_agent (new_calls s s'))) = max_iterations
     \<and> int (length (calls_to Coding_agent (new_calls s s'))) = max_iterations - 1
     \<and> (\<exists>t. last (new_calls s s')
               = (Review_agent,
                  review_message (last (code # outputs (calls_to Coding_agent (new_calls s s')))),
                  Inr t)
            \<and> py_get (verdict E t) ''status'' = Inr (PStr ''needs_revision'')
            \<and> r = Inr (verdict E t,
                        last (code # outputs (calls_to Coding_agent (new_calls s s')))))"
proof -
  from assms(2) have run: "review_loop E max_iterations code 0 None s = (r, s')"
    by (simp add: review_code_def)
  from review_loop_grows[OF run] obtain new where n: "calls s' = calls s @ new" by blast
  then have nc: "new_calls s s' = new" by (simp add: new_calls_def)
  have lt: "0 < max_iterations" using assms(1) by simp
  have all: "\<forall>x \<in> set new. \<exists>t. snd (snd x) = Inr t
      \<and> (fst x = Review_agent \<longrightarrow>
            py_get (verdict E t) ''status'' = Inr (PStr ''needs_revision''))"
    using assms(3) nc by auto
  from review_loop_rejected[OF run lt n all] show ?thesis
    using nc assms(1) by auto
qed

text \<open>The scenario of the spec: always \<^verbatim>\<open>needs_revision\<close>, a budget of two.\<close>

theorem review_code_always_rejected_witness:
  "int (length (calls_to Review_agent (new_calls
      (scripted (replies [] [''v1'', ''v2''] [needs_revision_text, needs_revision_text, needs_revision_text] [] [] []))
      (snd (review_code script_env ''v0'' PNone 2
        (scripted (replies [] [''v1'', ''v2''] [needs_revision_text, needs_revision_text, needs_revision_text] [] [] []))))))) = 2
   \<and> int (length (calls_to Coding_agent (new_calls
      (scripted (replies [] [''v1'', ''v2''] [needs_revision_text, needs_revision_text, needs_revision_text] [] [] []))
      (snd (review_code script_env ''v0'' PNone 2
        (scripted (replies [] [''v1'', ''v2''] [needs_revision_text, needs_revision_text, needs_revision_text] [] [] []))))))) = 2 - 1
   \<and> fst (review_code script_env ''v0'' PNone 2
        (scripted (replies [] [''v1'', ''v2''] [needs_revision_text, needs_revision_text, needs_revision_text] [] [] [])))
      = Inr (PDict [(''status'', PStr ''needs_revision''), (''score'', PInt 5)], ''v1'')"
proof -
  let ?s = "scripted (replies [] [''v1'', ''v2'']
    [needs_revision_text, needs_revision_text, needs_revision_text] [] [] [])"
  let ?run = "review_code script_env ''v0'' PNone 2 ?s"
  have h: "(1::int) \<le> 2" by simp
  have run: "?run = (fst ?run, snd ?run)" by simp
  have log: "new_calls ?s (snd ?run)
      = [(Review_agent, review_message ''v0'', Inr needs_revision_text),
         (Coding_agent, improve_message needs_revision_text ''v0'', Inr ''v1''),
         (Review_agent, review_message ''v1'', Inr needs_revision_text)]"
    by (simp add: run_defs)
  have v: "verdict script_env needs_revision_text
      = PDict [(''status'', PStr ''needs_revision''), (''score'', PInt 5)]"
    by (simp add: run_defs)
  have all: "\<forall>(a, message, out) \<in> set (new_calls ?s (snd ?run)).
      \<exists>t. out = Inr t
        \<and> (a = Review_agent \<longrightarrow>
              py_get (verdict script_env t) ''status'' = Inr (PStr ''needs_revision''))"
    unfolding log by (simp add: v)
  from review_code_always_rejected [OF h run all]
  show ?thesis unfolding log by (auto simp: v calls_to_def)
qed



section \<open>Properties of the requirements analysis\<close>

text \<open>
  C8. For every requirement, when the analyst's answer has no decodable span, the
  analysis returns the default record: title \<^verbatim>\<open>Software Project\<close>, the requirement
  itself as description, features \<^verbatim>\<open>[Core functionality]\<close>, constraints
  \<^verbatim>\<open>[Python implementation]\<close> and no edge cases.
\<close>

theorem analyze_requirements_fallback:
  assumes "ask E Req_agent (analyze_message requirement) 2 s = (Inr last_message, s1)"
    and "re_search last_message = None
         \<or> (\<exists>m e. re_search last_message = Some m \<and> loads E m = Inl e)"
  shows "analyze_requirements E requirement s
           = (Inr (PDict [(''title'', PStr ''Software Project''),
                          (''description'', PStr requirement),
                          (''features'', PList [PStr ''Core functionality'']),
                          (''constraints'', PList [PStr ''Python implementation'']),
                          (''edge_cases'', PList [])]),
              s1)"
  using assms
  by (auto simp: analyze_requirements_def extract_structured_def fallback_requirements_def)

text \<open>The answer of the test suite's fallback test.\<close>

theorem analyze_requirements_fallback_witness:
  "fst (analyze_requirements script_env ''test requirement''
          (scripted (replies [''This is not JSON''] [] [] [] [] [])))
     = Inr (PDict [(''title'', PStr ''Software Project''),
                   (''description'', PStr ''test requirement''),
                   (''features'', PList [PStr ''Core functionality'']),
                   (''constraints'', PList [PStr ''Python implementation'']),
                   (''edge_cases'', PList [])])"
proof -
  let ?s = "scripted (replies [''This is not JSON''] [] [] [] [] [])"
  have a: "ask script_env Req_agent (analyze_message ''test requirement'') 2 ?s
      = (Inr ''This is not JSON'',
         snd (ask script_env Req_agent (analyze_message ''test requirement'') 2 ?s))"
    by (simp add: run_defs analyze_message_def)
  have n: "re_search ''This is not JSON'' = None
      \<or> (\<exists>m e. re_search ''This is not JSON'' = Some m \<and> loads script_env m = Inl e)"
    by simp
  from analyze_requirements_fallback [OF a n] show ?thesis by simp
qed

section \<open>Properties of the pipeline\<close>

text \<open>No stage touches the result mapping; only \<open>put\<close> does.\<close>

lemma analyze_requirements_frame:
  "analyze_requirements E requirement s = (r, s1) \<Longrightarrow> results s1 = results s"
  by (auto simp: analyze_requirements_def split: prod.splits sum.splits dest: ask_state)

lemma generate_code_frame:
  "generate_code E req s = (r, s1) \<Longrightarrow> results s1 = results s"
  by (auto simp: generate_code_def dest: ask_state)

lemma review_code_frame:
  "review_code E code req m s = (r, s1) \<Longrightarrow> results s1 = results s"
  using review_loop_bounds by (fastforce simp: review_code_def)

lemma generate_documentation_frame:
  "generate_documentation E code req s = (r, s1) \<Longrightarrow> results s1 = results s"
  by (auto simp: generate_documentation_def dest: ask_state)

lemma generate_tests_frame:
  "generate_tests E code req s = (r, s1) \<Longrightarrow> results s1 = results s"
  by (auto simp: generate_tests_def dest: ask_state)

lemma generate_deployment_frame:
  "generate_deployment E code req s = (r, s1) \<Longrightarrow> results s1 = results s"
  by (auto simp: generate_deployment_def split: prod.splits sum.splits dest: ask_state)

lemma results_put: "results (put key v s) = (results s)(key \<mapsto> v)"
  by (simp add: put_def)

text \<open>The definitions a run of the pipeline unfolds, besides those of the loop.\<close>

lemmas stage_defs = process_requirement_def analyze_requirements_def generate_code_def
  generate_documentation_def generate_tests_def generate_deployment_def put_def
  analyze_message_def generate_message_def documentation_message_def tests_message_def
  deployment_message_def fallback_requirements_def

text \<open>
  C6, as the code has it. When the six stages succeed one after the other (the analysis,
  the code generation, the review loop, the documentation, the tests, the deployment
  script), \<open>process_requirement\<close> returns the instance's result mapping: the mapping
  it held before the call, with \<^verbatim>\<open>requirements\<close>, \<^verbatim>\<open>code\<close>, \<^verbatim>\<open>review\<close>, \<^verbatim>\<open>final_code\<close>,
  \<^verbatim>\<open>documentation\<close>, \<^verbatim>\<open>tests\<close> and \<^verbatim>\<open>deployment\<close> set to what each stage returned. Its
  keys are the earlier keys together with these seven: exactly these seven on a fresh
  instance. Nothing makes the values non-empty.
\<close>

theorem process_requirement_keys:
  assumes "analyze_requirements E requirement s = (Inr req, s1)"
    and "generate_code E req (put ''requirements'' req s1) = (Inr code, s2)"
    and "review_code E code req 3 (put ''code'' (PStr code) s2) = (Inr (review, final), s3)"
    and "generate_documentation E final req
           (put ''final_code'' (PStr final) (put ''review'' review s3)) = (Inr doc, s4)"
    and "generate_tests E final req (put ''documentation'' (PStr doc) s4) = (Inr tests, s5)"
    and "generate_deployment E final req (put ''tests'' (PStr tests) s5) = (Inr deploy, s6)"
  shows "\<exists>r s'. process_requirement E requirement s = (Inr r, s')
     \<and> r = results s'
     \<and> r = (results s)(''requirements'' \<mapsto> req, ''code'' \<mapsto> PStr code,
              ''review'' \<mapsto> review, ''final_code'' \<mapsto> PStr final,
              ''documentation'' \<mapsto> PStr doc, ''tests'' \<mapsto> PStr tests,
              ''deployment'' \<mapsto> deploy)
     \<and> dom r = dom (results s) \<union> {''requirements'', ''code'', ''review'', ''final_code'',
                                     ''documentation'', ''tests'', ''deployment''}"
proof -
  let ?s' = "put ''deployment'' deploy s6"
  have run: "process_requirement E requirement s = (Inr (results ?s'), ?s')"
    using assms by (simp add: process_requirement_def)
  have "results ?s' = (results s)(''requirements'' \<mapsto> req, ''code'' \<mapsto> PStr code,
      ''review'' \<mapsto> review, ''final_code'' \<mapsto> PStr final, ''documentation'' \<mapsto> PStr doc,
      ''tests'' \<mapsto> PStr tests, ''deployment'' \<mapsto> deploy)"
    unfolding results_put
      generate_deployment_frame[OF assms(6)] results_put
      generate_tests_frame[OF assms(5)] results_put
      generate_documentation_frame[OF assms(4)] results_put
      review_code_frame[OF assms(3)] results_put
      generate_code_frame[OF assms(2)] results_put
      analyze_requirements_frame[OF assms(1)] ..
  moreover from this have "dom (results ?s')
      = dom (results s) \<union> {''requirements'', ''code'', ''review'', ''final_code'',
                               ''documentation'', ''tests'', ''deployment''}"
    by auto
  ultimately show ?thesis using run by blast
qed

text \<open>
  The scenario of the integration test, on a fresh instance: the call succeeds, the
  mapping has exactly the seven keys and holds what the six agents answered.
\<close>

theorem process_requirement_keys_witness:
  "fst (process_requirement script_env ''Create a calculator'' calculator_run)
     = Inr (results (snd (process_requirement script_env ''Create a calculator'' calculator_run)))
   \<and> dom (results (snd (process_requirement script_env ''Create a calculator'' calculator_run)))
     = {''requirements'', ''code'', ''review'', ''final_code'', ''documentation'', ''tests'',
        ''deployment''}
   \<and> results (snd (process_requirement script_env ''Create a calculator'' calculator_run))
     = [''requirements'' \<mapsto> PDict [(''title'', PStr ''Calculator'')],
        ''code'' \<mapsto> PStr ''def add(a, b): return a + b'',
        ''review'' \<mapsto> PDict [(''status'', PStr ''approved''), (''score'', PInt 9)],
        ''final_code'' \<mapsto> PStr ''def add(a, b): return a + b'',
        ''documentation'' \<mapsto> PStr ''# Calculator'',
        ''tests'' \<mapsto> PStr ''def test_add(): assert add(1, 2) == 3'',
        ''deployment'' \<mapsto> PDict [(''script'', PStr ''echo Deploy''),
                                  (''timestamp'', PStr ''2024-01-01T00:00:00'')]]"
proof -
  let ?req = "PDict [(''title'', PStr ''Calculator'')]"
  let ?code = "''def add(a, b): return a + b''"
  let ?review = "PDict [(''status'', PStr ''approved''), (''score'', PInt 9)]"
  let ?doc = "''# Calculator''"
  let ?tests = "''def test_add(): assert add(1, 2) == 3''"
  let ?deploy = "PDict [(''script'', PStr ''echo Deploy''),
                        (''timestamp'', PStr ''2024-01-01T00:00:00'')]"
  let ?a1 = "analyze_requirements script_env ''Create a calculator'' calculator_run"
  let ?a2 = "generate_code script_env ?req (put ''requirements'' ?req (snd ?a1))"
  let ?a3 = "review_code script_env ?code ?req 3 (put ''code'' (PStr ?code) (snd ?a2))"
  let ?a4 = "generate_documentation script_env ?code ?req
      (put ''final_code'' (PStr ?code) (put ''review'' ?review (snd ?a3)))"
  let ?a5 = "generate_tests script_env ?code ?req (put ''documentation'' (PStr ?doc) (snd ?a4))"
  let ?a6 = "generate_deployment script_env ?code ?req (put ''tests'' (PStr ?tests) (snd ?a5))"
  have "fst ?a1 = Inr ?req"
    by (simp add: calculator_run_def run_defs stage_defs)
  then have 1: "?a1 = (Inr ?req, snd ?a1)" by (metis prod.collapse)
  have "fst ?a2 = Inr ?code"
    by (simp add: calculator_run_def run_defs stage_defs)
  then have 2: "?a2 = (Inr ?code, snd ?a2)" by (metis prod.collapse)
  have "fst ?a3 = Inr (?review, ?code)"
    by (simp add: calculator_run_def run_defs stage_defs)
  then have 3: "?a3 = (Inr (?review, ?code), snd ?a3)" by (metis prod.collapse)
  have "fst ?a4 = Inr ?doc"
    by (simp add: calculator_run_def run_defs stage_defs)
  then have 4: "?a4 = (Inr ?doc, snd ?a4)" by (metis prod.collapse)
  have "fst ?a5 = Inr ?tests"
    by (simp add: calculator_run_def run_defs stage_defs)
  then have 5: "?a5 = (Inr ?tests, snd ?a5)" by (metis prod.collapse)
  have "fst ?a6 = Inr ?deploy"
    by (simp add: calculator_run_def run_defs stage_defs)
  then have 6: "?a6 = (Inr ?deploy, snd ?a6)" by (metis prod.collapse)
  have fresh: "results calculator_run = Map.empty"
    by (simp add: calculator_run_def scripted_def init_def)
  let ?run = "process_requirement script_env ''Create a calculator'' calculator_run"
  let ?full = "(results calculator_run)(''requirements'' \<mapsto> ?req, ''code'' \<mapsto> PStr ?code,
      ''review'' \<mapsto> ?review, ''final_code'' \<mapsto> PStr ?code,
      ''documentation'' \<mapsto> PStr ?doc, ''tests'' \<mapsto> PStr ?tests,
      ''deployment'' \<mapsto> ?deploy)"
  let ?keys = "{''requirements'', ''code'', ''review'', ''final_code'', ''documentation'',
      ''tests'', ''deployment''}"
  from process_requirement_keys [OF 1 2 3 4 5 6]
  obtain r where "\<exists>s'. ?run = (Inr r, s') \<and> r = results s' \<and> r = ?full
      \<and> dom r = dom (results calculator_run) \<union> ?keys" ..
  then obtain s' where all: "?run = (Inr r, s') \<and> r = results s' \<and> r = ?full
      \<and> dom r = dom (results calculator_run) \<union> ?keys" ..
  note run = all [THEN conjunct1]
  note r = all [THEN conjunct2, THEN conjunct1]
  note v = all [THEN conjunct2, THEN conjunct2, THEN conjunct1]
  note d = all [THEN conjunct2, THEN conjunct2, THEN conjunct2]
  have a: "fst ?run = Inr (results (snd ?run))"
    unfolding run fst_conv snd_conv r [symmetric] ..
  have b: "dom (results (snd ?run)) = ?keys"
    unfolding run snd_conv r [symmetric] d fresh by simp
  have c: "results (snd ?run) = [''requirements'' \<mapsto> ?req, ''code'' \<mapsto> PStr ?code,
      ''review'' \<mapsto> ?review, ''final_code'' \<mapsto> PStr ?code,
      ''documentation'' \<mapsto> PStr ?doc, ''tests'' \<mapsto> PStr ?tests,
      ''deployment'' \<mapsto> ?deploy]"
    unfolding run snd_conv r [symmetric] v fresh ..
  from a b c show ?thesis by (intro conjI)
qed

text \<open>
  C6 as stated fails: every agent answers, so all six stages succeed and the mapping is
  returned, yet the requirements are the empty object and the code and the
  documentation are the empty text.
\<close>

theorem process_requirement_empty_values:
  "fst (process_requirement script_env ''Create a calculator'' empty_answers_run)
     = Inr (results (snd (process_requirement script_env ''Create a calculator'' empty_answers_run)))
   \<and> results (snd (process_requirement script_env ''Create a calculator'' empty_answers_run))
       ''requirements'' = Some (PDict [])
   \<and> results (snd (process_requirement script_env ''Create a calculator'' empty_answers_run))
       ''code'' = Some (PStr '''')
   \<and> results (snd (process_requirement script_env ''Create a calculator'' empty_answers_run))
       ''documentation'' = Some (PStr '''')"
  by (simp add: empty_answers_run_def run_defs stage_defs)

text \<open>
  C7. Whichever stage raises, after the stages before it succeeded,
  \<open>process_requirement\<close> raises that same exception and leaves the state that stage
  left, so that no later stage runs; each stage starts from the state in which the output
  of the stage before it is already stored; and the result mapping then holds what it held
  before the call, updated with the output of every stage that completed, nothing removed.
\<close>

theorem process_requirement_failure:
  "(analyze_requirements E requirement s = (Inl e, s') \<longrightarrow>
      process_requirement E requirement s = (Inl e, s') \<and> results s' = results s)
   \<and> (analyze_requirements E requirement s = (Inr req, s1) \<longrightarrow>
     (generate_code E req (put ''requirements'' req s1) = (Inl e, s') \<longrightarrow>
        process_requirement E requirement s = (Inl e, s')
        \<and> results s' = (results s)(''requirements'' \<mapsto> req))
     \<and> (generate_code E req (put ''requirements'' req s1) = (Inr code, s2) \<longrightarrow>
       (review_code E code req 3 (put ''code'' (PStr code) s2) = (Inl e, s') \<longrightarrow>
          process_requirement E requirement s = (Inl e, s')
          \<and> results s' = (results s)(''requirements'' \<mapsto> req, ''code'' \<mapsto> PStr code))
       \<and> (review_code E code req 3 (put ''code'' (PStr code) s2)
              = (Inr (review, final), s3) \<longrightarrow>
         (generate_documentation E final req
              (put ''final_code'' (PStr final) (put ''review'' review s3)) = (Inl e, s') \<longrightarrow>
            process_requirement E requirement s = (Inl e, s')
            \<and> results s' = (results s)(''requirements'' \<mapsto> req, ''code'' \<mapsto> PStr code,
                  ''review'' \<mapsto> review, ''final_code'' \<mapsto> PStr final))
         \<and> (generate_documentation E final req
                (put ''final_code'' (PStr final) (put ''review'' review s3))
                = (Inr doc, s4) \<longrightarrow>
           (generate_tests E final req (put ''documentation'' (PStr doc) s4) = (Inl e, s') \<longrightarrow>
              process_requirement E requirement s = (Inl e, s')
              \<and> results s' = (results s)(''requirements'' \<mapsto> req, ''code'' \<mapsto> PStr code,
                    ''review'' \<mapsto> review, ''final_code'' \<mapsto> PStr final,
                    ''documentation'' \<mapsto> PStr doc))
           \<and> (generate_tests E final req (put ''documentation'' (PStr doc) s4)
                  = (Inr tests, s5) \<longrightarrow>
             (generate_deployment E final req (put ''tests'' (PStr tests) s5)
                  = (Inl e, s') \<longrightarrow>
                process_requirement E requirement s = (Inl e, s')
                \<and> results s' = (results s)(''requirements'' \<mapsto> req, ''code'' \<mapsto> PStr code,
                      ''review'' \<mapsto> review, ''final_code'' \<mapsto> PStr final,
                      ''documentation'' \<mapsto> PStr doc, ''tests'' \<mapsto> PStr tests)))))))"
proof -
  have 1: "process_requirement E requirement s = (Inl e, s') \<and> results s' = results s"
    if "analyze_requirements E requirement s = (Inl e, s')"
    using that analyze_requirements_frame[OF that] by (simp add: process_requirement_def)
  have 2: "process_requirement E requirement s = (Inl e, s')
      \<and> results s' = (results s)(''requirements'' \<mapsto> req)"
    if a: "analyze_requirements E requirement s = (Inr req, s1)"
      and b: "generate_code E req (put ''requirements'' req s1) = (Inl e, s')"
    using a b generate_code_frame[OF b] analyze_requirements_frame[OF a]
    by (simp add: process_requirement_def results_put)
  have 3: "process_requirement E requirement s = (Inl e, s')
      \<and> results s' = (results s)(''requirements'' \<mapsto> req, ''code'' \<mapsto> PStr code)"
    if a: "analyze_requirements E requirement s = (Inr req, s1)"
      and b: "generate_code E req (put ''requirements'' req s1) = (Inr code, s2)"
      and c: "review_code E code req 3 (put ''code'' (PStr code) s2) = (Inl e, s')"
    using a b c review_code_frame[OF c] generate_code_frame[OF b]
      analyze_requirements_frame[OF a]
    by (simp add: process_requirement_def results_put)
  have 4: "process_requirement E requirement s = (Inl e, s')
      \<and> results s' = (results s)(''requirements'' \<mapsto> req, ''code'' \<mapsto> PStr code,
            ''review'' \<mapsto> review, ''final_code'' \<mapsto> PStr final)"
    if a: "analyze_requirements E requirement s = (Inr req, s1)"
      and b: "generate_code E req (put ''requirements'' req s1) = (Inr code, s2)"
      and c: "review_code E code req 3 (put ''code'' (PStr code) s2) = (Inr (review, final), s3)"
      and d: "generate_documentation E final req
          (put ''final_code'' (PStr final) (put ''review'' review s3)) = (Inl e, s')"
    using a b c d generate_documentation_frame[OF d] review_code_frame[OF c]
      generate_code_frame[OF b] analyze_requirements_frame[OF a]
    by (simp add: process_requirement_def results_put)
  have 5: "process_requirement E requirement s = (Inl e, s')
      \<and> results s' = (results s)(''requirements'' \<mapsto> req, ''code'' \<mapsto> PStr code,
            ''review'' \<mapsto> review, ''final_code'' \<mapsto> PStr final,
            ''documentation'' \<mapsto> PStr doc)"
    if a: "analyze_requirements E requirement s = (Inr req, s1)"
      and b: "generate_code E req (put ''requirements'' req s1) = (Inr code, s2)"
      and c: "review_code E code req 3 (put ''code'' (PStr code) s2) = (Inr (review, final), s3)"
      and d: "generate_documentation E final req
          (put ''final_code'' (PStr final) (put ''review'' review s3)) = (Inr doc, s4)"
      and f: "generate_tests E final req (put ''documentation'' (PStr doc) s4) = (Inl e, s')"
    using a b c d f generate_tests_frame[OF f] generate_documentation_frame[OF d]
      review_code_frame[OF c] generate_code_frame[OF b] analyze_requirements_frame[OF a]
    by (simp add: process_requirement_def results_put)
  have 6: "process_requirement E requirement s = (Inl e, s')
      \<and> results s' = (results s)(''requirements'' \<mapsto> req, ''code'' \<mapsto> PStr code,
            ''review'' \<mapsto> review, ''final_code'' \<mapsto> PStr final,
            ''documentation'' \<mapsto> PStr doc, ''tests'' \<mapsto> PStr tests)"
    if a: "analyze_requirements E requirement s = (Inr req, s1)"
      and b: "generate_code E req (put ''requirements'' req s1) = (Inr code, s2)"
      and c: "review_code E code req 3 (put ''code'' (PStr code) s2) = (Inr (review, final), s3)"
      and d: "generate_documentation E final req
          (put ''final_code'' (PStr final) (put ''review'' review s3)) = (Inr doc, s4)"
      and f: "generate_tests E final req (put ''documentation'' (PStr doc) s4) = (Inr tests, s5)"
      and g: "generate_deployment E final req (put ''tests'' (PStr tests) s5) = (Inl e, s')"
    using a b c d f g generate_deployment_frame[OF g] generate_tests_frame[OF f]
      generate_documentation_frame[OF d] review_code_frame[OF c] generate_code_frame[OF b]
      analyze_requirements_frame[OF a]
    by (simp add: process_requirement_def results_put)
  from 1 2 3 4 5 6 show ?thesis by blast
qed

text \<open>
  Three runs on a fresh instance: the analyst raises and the mapping stays empty; the
  writer raises and the mapping keeps the requirements, the code, the review and the
  final code; the DevOps engineer raises and the mapping keeps all but the deployment.
\<close>

theorem process_requirement_failure_witness:
  "process_requirement script_env ''Create a calculator'' analyst_fails_run
     = (Inl (Raised ''no reply''),
        snd (analyze_requirements script_env ''Create a calculator'' analyst_fails_run))
   \<and> results (snd (process_requirement script_env ''Create a calculator'' analyst_fails_run))
     = Map.empty
   \<and> fst (process_requirement script_env ''Create a calculator'' writer_fails_run)
     = Inl (Raised ''no reply'')
   \<and> results (snd (process_requirement script_env ''Create a calculator'' writer_fails_run))
     = [''requirements'' \<mapsto> PDict [(''title'', PStr ''Calculator'')],
        ''code'' \<mapsto> PStr ''def add(a, b): return a + b'',
        ''review'' \<mapsto> PDict [(''status'', PStr ''approved''), (''score'', PInt 9)],
        ''final_code'' \<mapsto> PStr ''def add(a, b): return a + b'']
   \<and> fst (process_requirement script_env ''Create a calculator'' devops_fails_run)
     = Inl (Raised ''no reply'')
   \<and> results (snd (process_requirement script_env ''Create a calculator'' devops_fails_run))
     = [''requirements'' \<mapsto> PDict [(''title'', PStr ''Calculator'')],
        ''code'' \<mapsto> PStr ''def add(a, b): return a + b'',
        ''review'' \<mapsto> PDict [(''status'', PStr ''approved''), (''score'', PInt 9)],
        ''final_code'' \<mapsto> PStr ''def add(a, b): return a + b'',
        ''documentation'' \<mapsto> PStr ''# Calculator'',
        ''tests'' \<mapsto> PStr ''def test_add(): assert add(1, 2) == 3'']"
proof -
  let ?rq = "''Create a calculator''"
  let ?req = "PDict [(''title'', PStr ''Calculator'')]"
  let ?code = "''def add(a, b): return a + b''"
  let ?review = "PDict [(''status'', PStr ''approved''), (''score'', PInt 9)]"
  let ?doc = "''# Calculator''"
  let ?tests = "''def test_add(): assert add(1, 2) == 3''"
  note stage1 = process_requirement_failure [THEN conjunct1, THEN mp]
  note stage4 = process_requirement_failure [THEN conjunct2, THEN mp, THEN conjunct2, THEN mp,
      THEN conjunct2, THEN mp, THEN conjunct1, THEN mp]
  note stage6 = process_requirement_failure [THEN conjunct2, THEN mp, THEN conjunct2, THEN mp,
      THEN conjunct2, THEN mp, THEN conjunct2, THEN mp, THEN conjunct2, THEN mp, THEN mp]
  \<comment> \<open>the analyst raises\<close>
  let ?f1 = "analyze_requirements script_env ?rq analyst_fails_run"
  have "fst ?f1 = Inl (Raised ''no reply'')"
    by (simp add: analyst_fails_run_def run_defs stage_defs)
  then have f1: "?f1 = (Inl (Raised ''no reply''), snd ?f1)" by (metis prod.collapse)
  have fresh1: "results analyst_fails_run = Map.empty"
    by (simp add: analyst_fails_run_def scripted_def init_def)
  note first = stage1 [OF f1]
  \<comment> \<open>the writer raises\<close>
  let ?w1 = "analyze_requirements script_env ?rq writer_fails_run"
  let ?w2 = "generate_code script_env ?req (put ''requirements'' ?req (snd ?w1))"
  let ?w3 = "review_code script_env ?code ?req 3 (put ''code'' (PStr ?code) (snd ?w2))"
  let ?w4 = "generate_documentation script_env ?code ?req
      (put ''final_code'' (PStr ?code) (put ''review'' ?review (snd ?w3)))"
  have "fst ?w1 = Inr ?req"
    by (simp add: writer_fails_run_def run_defs stage_defs)
  then have w1: "?w1 = (Inr ?req, snd ?w1)" by (metis prod.collapse)
  have "fst ?w2 = Inr ?code"
    by (simp add: writer_fails_run_def run_defs stage_defs)
  then have w2: "?w2 = (Inr ?code, snd ?w2)" by (metis prod.collapse)
  have "fst ?w3 = Inr (?review, ?code)"
    by (simp add: writer_fails_run_def run_defs stage_defs)
  then have w3: "?w3 = (Inr (?review, ?code), snd ?w3)" by (metis prod.collapse)
  have "fst ?w4 = Inl (Raised ''no reply'')"
    by (simp add: writer_fails_run_def run_defs stage_defs)
  then have w4: "?w4 = (Inl (Raised ''no reply''), snd ?w4)" by (metis prod.collapse)
  have fresh4: "results writer_fails_run = Map.empty"
    by (simp add: writer_fails_run_def scripted_def init_def)
  note middle = stage4 [OF w1 w2 w3 w4]
  \<comment> \<open>the DevOps engineer raises\<close>
  let ?d1 = "analyze_requirements script_env ?rq devops_fails_run"
  let ?d2 = "generate_code script_env ?req (put ''requirements'' ?req (snd ?d1))"
  let ?d3 = "review_code script_env ?code ?req 3 (put ''code'' (PStr ?code) (snd ?d2))"
  let ?d4 = "generate_documentation script_env ?code ?req
      (put ''final_code'' (PStr ?code) (put ''review'' ?review (snd ?d3)))"
  let ?d5 = "generate_tests script_env ?code ?req (put ''documentation'' (PStr ?doc) (snd ?d4))"
  let ?d6 = "generate_deployment script_env ?code ?req (put ''tests'' (PStr ?tests) (snd ?d5))"
  have "fst ?d1 = Inr ?req"
    by (simp add: devops_fails_run_def run_defs stage_defs)
  then have d1: "?d1 = (Inr ?req, snd ?d1)" by (metis prod.collapse)
  have "fst ?d2 = Inr ?code"
    by (simp add: devops_fails_run_def run_defs stage_defs)
  then have d2: "?d2 = (Inr ?code, snd ?d2)" by (metis prod.collapse)
  have "fst ?d3 = Inr (?review, ?code)"
    by (simp add: devops_fails_run_def run_defs stage_defs)
  then have d3: "?d3 = (Inr (?review, ?code), snd ?d3)" by (metis prod.collapse)
  have "fst ?d4 = Inr ?doc"
    by (simp add: devops_fails_run_def run_defs stage_defs)
  then have d4: "?d4 = (Inr ?doc, snd ?d4)" by (metis prod.collapse)
  have "fst ?d5 = Inr ?tests"
    by (simp add: devops_fails_run_def run_defs stage_defs)
  then have d5: "?d5 = (Inr ?tests, snd ?d5)" by (metis prod.collapse)
  have "fst ?d6 = Inl (Raised ''no reply'')"
    by (simp add: devops_fails_run_def run_defs stage_defs)
  then have d6: "?d6 = (Inl (Raised ''no reply''), snd ?d6)" by (metis prod.collapse)
  have fresh6: "results devops_fails_run = Map.empty"
    by (simp add: devops_fails_run_def scripted_def init_def)
  note last = stage6 [OF d1 d2 d3 d4 d5 d6]
  let ?p1 = "process_requirement script_env ?rq analyst_fails_run"
  let ?p4 = "process_requirement script_env ?rq writer_fails_run"
  let ?p6 = "process_requirement script_env ?rq devops_fails_run"
  have a: "?p1 = (Inl (Raised ''no reply''), snd ?f1)"
    by (rule first [THEN conjunct1])
  have b: "results (snd ?p1) = Map.empty"
    unfolding a snd_conv first [THEN conjunct2] fresh1 ..
  have c: "fst ?p4 = Inl (Raised ''no reply'')"
    unfolding middle [THEN conjunct1] fst_conv ..
  have d: "results (snd ?p4)
      = [''requirements'' \<mapsto> ?req, ''code'' \<mapsto> PStr ?code,
         ''review'' \<mapsto> ?review, ''final_code'' \<mapsto> PStr ?code]"
    unfolding middle [THEN conjunct1] snd_conv middle [THEN conjunct2] fresh4 ..
  have e: "fst ?p6 = Inl (Raised ''no reply'')"
    unfolding last [THEN conjunct1] fst_conv ..
  have f: "results (snd ?p6)
      = [''requirements'' \<mapsto> ?req, ''code'' \<mapsto> PStr ?code,
         ''review'' \<mapsto> ?review, ''final_code'' \<mapsto> PStr ?code,
         ''documentation'' \<mapsto> PStr ?doc, ''tests'' \<mapsto> PStr ?tests]"
    unfolding last [THEN conjunct1] snd_conv last [THEN conjunct2] fresh6 ..
  from a b c d e f show ?thesis by (intro conjI)
qed

end
